theory Spec2Isabelle
  imports Main "HOL-Library.Word" "HOL-Library.Sublist"
begin

section \<open>TLS connection descriptions of certigo (lib/tls.go)\<close>

text \<open>
  The module labels a negotiated TLS session: two constant tables map the 16-bit
  protocol version and cipher suite identifiers to a \<open>description\<close>, \<open>lookup\<close> reads a
  table with a default for identifiers it does not hold, \<open>explainCipher\<close> derives the
  display name of a cipher suite from its slug, and two encoders produce a
  two-field object and a coloured text block.

  Go's \<open>uint16\<close> and \<open>uint8\<close> are \<open>16 word\<close> and \<open>8 word\<close>; a Go \<open>string\<close> is a byte
  sequence, here \<open>string\<close>. A run-time panic of the source (an index or a slice bound
  out of range, a template fault) is a value of type \<open>panic\<close>, and a function that may
  panic returns \<open>panic + 'a\<close>.
\<close>

subsection \<open>Data model\<close>

datatype panic = IndexOutOfRange | SliceBoundsOutOfRange | TemplateFault

text \<open>\<open>type TLSDescription struct { Version string; Cipher string }\<close>\<close>

record TLSDescription =
  Version :: string
  Cipher :: string

text \<open>\<open>type description struct { Name string; Slug string; Quality uint8 }\<close>\<close>

record description =
  Name :: string
  Slug :: string
  Quality :: "8 word"

text \<open>\<open>const ( insecure = iota; ok = iota; good = iota )\<close>\<close>

definition insecure :: "8 word" where "insecure = 0"
definition ok :: "8 word" where "ok = 1"
definition good :: "8 word" where "good = 2"

text \<open>The composite literal \<open>description{n, s, q}\<close>.\<close>

definition mk :: "string \<Rightarrow> string \<Rightarrow> 8 word \<Rightarrow> description" where
  "mk n s q = \<lparr>Name = n, Slug = s, Quality = q\<rparr>"

subsection \<open>Identifiers of the standard\<close>

text \<open>
  The keys of the two tables are constants of Go's \<open>crypto/tls\<close> package; their values
  are the code points that the TLS standard registers.
\<close>

definition VersionSSL30 :: "16 word" where "VersionSSL30 = 0x0300"
definition VersionTLS10 :: "16 word" where "VersionTLS10 = 0x0301"
definition VersionTLS11 :: "16 word" where "VersionTLS11 = 0x0302"
definition VersionTLS12 :: "16 word" where "VersionTLS12 = 0x0303"

definition TLS_RSA_WITH_RC4_128_SHA :: "16 word" where
  "TLS_RSA_WITH_RC4_128_SHA = 0x0005"
definition TLS_RSA_WITH_3DES_EDE_CBC_SHA :: "16 word" where
  "TLS_RSA_WITH_3DES_EDE_CBC_SHA = 0x000a"
definition TLS_RSA_WITH_AES_128_CBC_SHA :: "16 word" where
  "TLS_RSA_WITH_AES_128_CBC_SHA = 0x002f"
definition TLS_RSA_WITH_AES_256_CBC_SHA :: "16 word" where
  "TLS_RSA_WITH_AES_256_CBC_SHA = 0x0035"
definition TLS_RSA_WITH_AES_128_CBC_SHA256 :: "16 word" where
  "TLS_RSA_WITH_AES_128_CBC_SHA256 = 0x003c"
definition TLS_RSA_WITH_AES_128_GCM_SHA256 :: "16 word" where
  "TLS_RSA_WITH_AES_128_GCM_SHA256 = 0x009c"
definition TLS_RSA_WITH_AES_256_GCM_SHA384 :: "16 word" where
  "TLS_RSA_WITH_AES_256_GCM_SHA384 = 0x009d"
definition TLS_ECDHE_ECDSA_WITH_RC4_128_SHA :: "16 word" where
  "TLS_ECDHE_ECDSA_WITH_RC4_128_SHA = 0xc007"
definition TLS_ECDHE_ECDSA_WITH_AES_128_CBC_SHA :: "16 word" where
  "TLS_ECDHE_ECDSA_WITH_AES_128_CBC_SHA = 0xc009"
definition TLS_ECDHE_ECDSA_WITH_AES_256_CBC_SHA :: "16 word" where
  "TLS_ECDHE_ECDSA_WITH_AES_256_CBC_SHA = 0xc00a"
definition TLS_ECDHE_RSA_WITH_RC4_128_SHA :: "16 word" where
  "TLS_ECDHE_RSA_WITH_RC4_128_SHA = 0xc011"
definition TLS_ECDHE_RSA_WITH_3DES_EDE_CBC_SHA :: "16 word" where
  "TLS_ECDHE_RSA_WITH_3DES_EDE_CBC_SHA = 0xc012"
definition TLS_ECDHE_RSA_WITH_AES_128_CBC_SHA :: "16 word" where
  "TLS_ECDHE_RSA_WITH_AES_128_CBC_SHA = 0xc013"
definition TLS_ECDHE_RSA_WITH_AES_256_CBC_SHA :: "16 word" where
  "TLS_ECDHE_RSA_WITH_AES_256_CBC_SHA = 0xc014"
definition TLS_ECDHE_ECDSA_WITH_AES_128_CBC_SHA256 :: "16 word" where
  "TLS_ECDHE_ECDSA_WITH_AES_128_CBC_SHA256 = 0xc023"
definition TLS_ECDHE_RSA_WITH_AES_128_CBC_SHA256 :: "16 word" where
  "TLS_ECDHE_RSA_WITH_AES_128_CBC_SHA256 = 0xc027"
definition TLS_ECDHE_RSA_WITH_AES_128_GCM_SHA256 :: "16 word" where
  "TLS_ECDHE_RSA_WITH_AES_128_GCM_SHA256 = 0xc02f"
definition TLS_ECDHE_ECDSA_WITH_AES_128_GCM_SHA256 :: "16 word" where
  "TLS_ECDHE_ECDSA_WITH_AES_128_GCM_SHA256 = 0xc02b"
definition TLS_ECDHE_RSA_WITH_AES_256_GCM_SHA384 :: "16 word" where
  "TLS_ECDHE_RSA_WITH_AES_256_GCM_SHA384 = 0xc030"
definition TLS_ECDHE_ECDSA_WITH_AES_256_GCM_SHA384 :: "16 word" where
  "TLS_ECDHE_ECDSA_WITH_AES_256_GCM_SHA384 = 0xc02c"
definition TLS_ECDHE_RSA_WITH_CHACHA20_POLY1305 :: "16 word" where
  "TLS_ECDHE_RSA_WITH_CHACHA20_POLY1305 = 0xcca8"
definition TLS_ECDHE_ECDSA_WITH_CHACHA20_POLY1305 :: "16 word" where
  "TLS_ECDHE_ECDSA_WITH_CHACHA20_POLY1305 = 0xcca9"

subsection \<open>The registries\<close>

text \<open>
  A Go map literal is the list of its key-value pairs, read as a map. Its keys are
  constants, so the compiler rejects a literal that repeats one.
\<close>

definition tlsVersions_literal :: "(16 word \<times> description) list" where
  "tlsVersions_literal =
    [(VersionSSL30, mk ''SSL 3.0'' ''ssl_3_0'' insecure),
     (VersionTLS10, mk ''TLS 1.0'' ''tls_1_0'' insecure),
     (VersionTLS11, mk ''TLS 1.1'' ''tls_1_1'' ok),
     (VersionTLS12, mk ''TLS 1.2'' ''tls_1_2'' good)]"

definition tlsVersions :: "16 word \<rightharpoonup> description" where
  "tlsVersions = map_of tlsVersions_literal"

definition cipherSuites_literal :: "(16 word \<times> description) list" where
  "cipherSuites_literal =
    [(TLS_RSA_WITH_RC4_128_SHA, mk '''' ''TLS_RSA_WITH_RC4_128_SHA'' insecure),
     (TLS_RSA_WITH_3DES_EDE_CBC_SHA, mk '''' ''TLS_RSA_WITH_3DES_EDE_CBC_SHA'' insecure),
     (TLS_RSA_WITH_AES_128_CBC_SHA, mk '''' ''TLS_RSA_WITH_AES_128_CBC_SHA'' ok),
     (TLS_RSA_WITH_AES_256_CBC_SHA, mk '''' ''TLS_RSA_WITH_AES_256_CBC_SHA'' ok),
     (TLS_RSA_WITH_AES_128_CBC_SHA256, mk '''' ''TLS_RSA_WITH_AES_128_CBC_SHA256'' ok),
     (TLS_RSA_WITH_AES_128_GCM_SHA256, mk '''' ''TLS_RSA_WITH_AES_128_GCM_SHA256'' ok),
     (TLS_RSA_WITH_AES_256_GCM_SHA384, mk '''' ''TLS_RSA_WITH_AES_256_GCM_SHA384'' ok),
     (TLS_ECDHE_ECDSA_WITH_RC4_128_SHA, mk '''' ''TLS_ECDHE_ECDSA_WITH_RC4_128_SHA'' insecure),
     (TLS_ECDHE_ECDSA_WITH_AES_128_CBC_SHA,
        mk '''' ''TLS_ECDHE_ECDSA_WITH_AES_128_CBC_SHA'' ok),
     (TLS_ECDHE_ECDSA_WITH_AES_256_CBC_SHA,
        mk '''' ''TLS_ECDHE_ECDSA_WITH_AES_256_CBC_SHA'' ok),
     (TLS_ECDHE_RSA_WITH_RC4_128_SHA, mk '''' ''TLS_ECDHE_RSA_WITH_RC4_128_SHA'' insecure),
     (TLS_ECDHE_RSA_WITH_3DES_EDE_CBC_SHA,
        mk '''' ''TLS_ECDHE_RSA_WITH_3DES_EDE_CBC_SHA'' insecure),
     (TLS_ECDHE_RSA_WITH_AES_128_CBC_SHA, mk '''' ''TLS_ECDHE_RSA_WITH_AES_128_CBC_SHA'' ok),
     (TLS_ECDHE_RSA_WITH_AES_256_CBC_SHA, mk '''' ''TLS_ECDHE_RSA_WITH_AES_256_CBC_SHA'' ok),
     (TLS_ECDHE_ECDSA_WITH_AES_128_CBC_SHA256,
        mk '''' ''TLS_ECDHE_ECDSA_WITH_AES_128_CBC_SHA256'' ok),
     (TLS_ECDHE_RSA_WITH_AES_128_CBC_SHA256,
        mk '''' ''TLS_ECDHE_RSA_WITH_AES_128_CBC_SHA256'' ok),
     (TLS_ECDHE_RSA_WITH_AES_128_GCM_SHA256,
        mk '''' ''TLS_ECDHE_RSA_WITH_AES_128_GCM_SHA256'' good),
     (TLS_ECDHE_ECDSA_WITH_AES_128_GCM_SHA256,
        mk '''' ''TLS_ECDHE_ECDSA_WITH_AES_128_GCM_SHA256'' good),
     (TLS_ECDHE_RSA_WITH_AES_256_GCM_SHA384,
        mk '''' ''TLS_ECDHE_RSA_WITH_AES_256_GCM_SHA384'' good),
     (TLS_ECDHE_ECDSA_WITH_AES_256_GCM_SHA384,
        mk '''' ''TLS_ECDHE_ECDSA_WITH_AES_256_GCM_SHA384'' good),
     (TLS_ECDHE_RSA_WITH_CHACHA20_POLY1305,
        mk '''' ''TLS_ECDHE_RSA_WITH_CHACHA20_POLY1305'' good),
     (TLS_ECDHE_ECDSA_WITH_CHACHA20_POLY1305,
        mk '''' ''TLS_ECDHE_ECDSA_WITH_CHACHA20_POLY1305'' good)]"

definition cipherSuites :: "16 word \<rightharpoonup> description" where
  "cipherSuites = map_of cipherSuites_literal"

subsection \<open>Formatting an unsigned integer with the verb \<open>%x\<close>\<close>

text \<open>
  \<open>fmt\<close> writes the digits of \<open>u\<close> in base 16 from the least significant one, taking
  them from \<open>"0123456789abcdefx"\<close>:
  \<open>for u >= 16 { buf[i] = digits[u&0xF]; u >>= 4 }; buf[i] = digits[u]\<close>.
\<close>

definition ldigits :: string where
  "ldigits = ''0123456789abcdefx''"

fun fmtHex :: "nat \<Rightarrow> string" where
  "fmtHex u = (if 16 \<le> u then fmtHex (u div 16) @ [ldigits ! (u mod 16)] else [ldigits ! u])"

declare fmtHex.simps [simp del]

subsection \<open>The resolver\<close>

text \<open>
  \<open>func lookup(descriptions map[uint16]description, what uint16) description\<close>:
  a map lookup with a default.
\<close>

definition lookup :: "(16 word \<rightharpoonup> description) \<Rightarrow> 16 word \<Rightarrow> description" where
  "lookup descriptions what =
    (case descriptions what of
       None \<Rightarrow> (let unknown = ''UNKNOWN_'' @ fmtHex (unat what) in mk unknown unknown 0)
     | Some v \<Rightarrow> v)"

subsection \<open>Searching and splitting strings\<close>

text \<open>
  \<open>strings.Index(s, sep)\<close> is the index of the first instance of \<open>sep\<close> in \<open>s\<close>, or
  \<open>-1\<close> (here \<open>None\<close>) when there is none.
\<close>

fun Index :: "string \<Rightarrow> string \<Rightarrow> nat option" where
  "Index [] sep = (if sep = [] then Some 0 else None)"
| "Index (c # cs) sep =
    (if prefix sep (c # cs) then Some 0 else map_option Suc (Index cs sep))"

lemma Index_bound: "Index s sep = Some m \<Longrightarrow> m + length sep \<le> length s"
proof (induction s arbitrary: m)
  case Nil
  then show ?case by (simp split: if_splits)
next
  case (Cons c cs)
  show ?case
  proof (cases "prefix sep (c # cs)")
    case True
    then have "length sep \<le> length (c # cs)" by (rule prefix_length_le)
    with True Cons.prems show ?thesis by simp
  next
    case False
    with Cons.prems obtain k where "Index cs sep = Some k" and "m = Suc k" by auto
    with Cons.IH show ?thesis by fastforce
  qed
qed

text \<open>
  \<open>strings.Split(s, sep)\<close> is \<open>genSplit(s, sep, 0, -1)\<close>: it sizes its result as
  \<open>Count(s, sep) + 1\<close> and then cuts \<open>s\<close> at each instance that \<open>Index\<close> finds, from
  the left, going on behind the instance:
  \<open>m := Index(s, sep); if m < 0 { break }; a[i] = s[:m]; s = s[m+len(sep):]\<close>,
  and the rest of \<open>s\<close> is the last element. With an empty separator it explodes \<open>s\<close>
  into its characters (one byte each for ASCII text).
\<close>

function Split :: "string \<Rightarrow> string \<Rightarrow> string list" where
  "Split s sep =
    (if sep = [] then map (\<lambda>c. [c]) s
     else case Index s sep of
            None \<Rightarrow> [s]
          | Some m \<Rightarrow> take m s # Split (drop (m + length sep) s) sep)"
  by pat_completeness auto
termination
proof (relation "measure (\<lambda>(s, sep). length s)")
  show "wf (measure (\<lambda>(s, sep). length s))" by simp
next
  fix s sep :: string and m :: nat
  assume "sep \<noteq> []" and "Index s sep = Some m"
  then have "m + length sep \<le> length s" and "0 < length sep"
    by (simp_all add: Index_bound)
  then have "length s - (m + length sep) < length s" by arith
  then show "((drop (m + length sep) s, sep), (s, sep)) \<in> measure (\<lambda>(s, sep). length s)"
    by simp
qed

declare Split.simps [simp del]

subsection \<open>Deriving the name of a cipher suite\<close>

text \<open>
  \<open>kexAndCipher := strings.Split(d.Slug, "_WITH_")\<close>
  \<open>d.Name = fmt.Sprintf("%s key exchange, %s cipher", kexAndCipher[0][len("TLS_"):], kexAndCipher[1])\<close>
  The operands are evaluated from left to right: the index \<open>[0]\<close>, the slice
  \<open>[len("TLS_"):]\<close>, which panics on a string shorter than 4 bytes, and the index
  \<open>[1]\<close>, which panics when the split has a single part. The argument is passed by
  value, so the caller's description is not changed.
\<close>

definition explainCipher :: "description \<Rightarrow> panic + description" where
  "explainCipher d =
    (let kexAndCipher = Split (Slug d) ''_WITH_'' in
     if length kexAndCipher \<le> 0 then Inl IndexOutOfRange
     else if length (kexAndCipher ! 0) < length ''TLS_'' then Inl SliceBoundsOutOfRange
     else if length kexAndCipher \<le> 1 then Inl IndexOutOfRange
     else Inr (d\<lparr>Name := drop (length ''TLS_'') (kexAndCipher ! 0) @ '' key exchange, ''
                          @ kexAndCipher ! 1 @ '' cipher''\<rparr>))"

subsection \<open>Colours\<close>

text \<open>
  \<open>*color.Color\<close> of the library \<open>github.com/fatih/color\<close>: \<open>c.SprintFunc()\<close> is the
  function \<open>c.wrap(fmt.Sprint(a...))\<close>, and
  \<open>wrap(s)\<close> is \<open>s\<close> when colours are switched off and \<open>c.format() + s + c.unformat()\<close>
  otherwise. A colour is modelled by what these three methods return.
\<close>

record Color =
  isNoColorSet :: bool
  format :: string
  unformat :: string

definition wrap :: "Color \<Rightarrow> string \<Rightarrow> string" where
  "wrap c s = (if isNoColorSet c then s else format c @ s @ unformat c)"

definition SprintFunc :: "Color \<Rightarrow> string \<Rightarrow> string" where
  "SprintFunc c a = wrap c a"

text \<open>
  The package variables \<open>red\<close>, \<open>yellow\<close> and \<open>green\<close> are declared in another file of
  the package; the functions that read them take them as a parameter, three colours
  that are not nil.
\<close>

record palette =
  red :: Color
  yellow :: Color
  green :: Color

text \<open>\<open>var qualityColors = map[uint8]*color.Color{insecure: red, ok: yellow, good: green}\<close>\<close>

definition qualityColors :: "palette \<Rightarrow> 8 word \<rightharpoonup> Color" where
  "qualityColors p = map_of [(insecure, red p), (ok, yellow p), (good, green p)]"

definition tlscolor :: "palette \<Rightarrow> description \<Rightarrow> string" where
  "tlscolor p d =
    (case qualityColors p (Quality d) of
       None \<Rightarrow> Name d
     | Some c \<Rightarrow> SprintFunc c (Name d))"

subsection \<open>The text template\<close>

text \<open>
  \<open>text/template\<close>, as far as \<open>tlsLayout\<close> uses it: the text outside the delimiters
  \<open>{{\<close> and \<open>}}\<close> is copied, and an action \<open>{{.F}}\<close> is replaced by the field \<open>F\<close> of the
  data, unescaped. \<open>Parse\<close> and \<open>Execute\<close> return an error (here \<open>None\<close>) on an action
  that is not closed, on one that is not a field, and on a field that the data does
  not have.
\<close>

definition tlsLayout :: string where
  "tlsLayout =
    ''** TLS Connection **\<newline>Version: {{.Version}}\<newline>Cipher Suite: {{.Cipher}}''"

datatype node = TextNode string | FieldNode string

definition textNodes :: "string \<Rightarrow> node list" where
  "textNodes t = (if t = [] then [] else [TextNode t])"

function Parse :: "string \<Rightarrow> node list option" where
  "Parse s =
    (case Index s ''{{'' of
       None \<Rightarrow> Some (textNodes s)
     | Some i \<Rightarrow>
        (case Index (drop (i + 2) s) ''}}'' of
           None \<Rightarrow> None
         | Some j \<Rightarrow>
            (case take j (drop (i + 2) s) of
               [] \<Rightarrow> None
             | c # f \<Rightarrow>
                if c = CHR ''.'' \<and> f \<noteq> [] then
                  (case Parse (drop (j + 2) (drop (i + 2) s)) of
                     None \<Rightarrow> None
                   | Some ns \<Rightarrow> Some (textNodes (take i s) @ FieldNode f # ns))
                else None)))"
  by pat_completeness auto
termination
proof (relation "measure length")
  show "wf (measure length)" by simp
next
  fix s :: string and i j :: nat
  assume "Index s ''{{'' = Some i"
  then have "i + length ''{{'' \<le> length s" by (rule Index_bound)
  then have "length s - (i + 2) - (j + 2) < length s" by simp
  then show "(drop (j + 2) (drop (i + 2) s), s) \<in> measure length"
    by (simp add: add.commute)
qed

declare Parse.simps [simp del]

definition field :: "TLSDescription \<Rightarrow> string \<Rightarrow> string option" where
  "field d f =
    (if f = ''Version'' then Some (Version d)
     else if f = ''Cipher'' then Some (Cipher d)
     else None)"

fun Execute :: "node list \<Rightarrow> TLSDescription \<Rightarrow> string option" where
  "Execute [] d = Some []"
| "Execute (TextNode t # ns) d = map_option ((@) t) (Execute ns d)"
| "Execute (FieldNode f # ns) d =
    (case field d f of
       None \<Rightarrow> None
     | Some v \<Rightarrow> map_option ((@) v) (Execute ns d))"

subsection \<open>The encoders\<close>

text \<open>
  Of \<open>tls.ConnectionState\<close> the encoders read the fields \<open>Version\<close> and \<open>CipherSuite\<close>,
  both \<open>uint16\<close>; the record holds these two, under the names \<open>tcs_Version\<close> and
  \<open>tcs_CipherSuite\<close>. The encoders are given a pointer to a connection state, which
  is taken not to be nil.
\<close>

record ConnectionState =
  tcs_Version :: "16 word"
  tcs_CipherSuite :: "16 word"

text \<open>
  \<open>func EncodeTLSToText(tcs *tls.ConnectionState) string\<close>. A panic of \<open>explainCipher\<close>
  ends the call; an error of the template is turned into a panic by the source.
\<close>

definition EncodeTLSToText :: "palette \<Rightarrow> ConnectionState \<Rightarrow> panic + string" where
  "EncodeTLSToText p tcs =
    (let version = lookup tlsVersions (tcs_Version tcs);
         cipher = lookup cipherSuites (tcs_CipherSuite tcs)
     in case explainCipher cipher of
          Inl e \<Rightarrow> Inl e
        | Inr explained \<Rightarrow>
           (let description = \<lparr>Version = tlscolor p version, Cipher = tlscolor p explained\<rparr>
            in case Parse tlsLayout of
                 None \<Rightarrow> Inl TemplateFault
               | Some t \<Rightarrow>
                  (case Execute t description of
                     None \<Rightarrow> Inl TemplateFault
                   | Some buffer \<Rightarrow> Inr buffer)))"

text \<open>\<open>func EncodeTLSToObject(t *tls.ConnectionState) interface{}\<close>\<close>

definition EncodeTLSToObject :: "ConnectionState \<Rightarrow> TLSDescription" where
  "EncodeTLSToObject t =
    (let version = lookup tlsVersions (tcs_Version t);
         cipher = lookup cipherSuites (tcs_CipherSuite t)
     in \<lparr>Version = Slug version, Cipher = Slug cipher\<rparr>)"

subsection \<open>Notions for stating the properties\<close>

text \<open>
  The positions of a string at which a separator occurs, overlapping ones included:
  \<open>sep\<close> occurs once in \<open>s\<close> when \<open>positions sep s\<close> has one element.
\<close>

definition positions :: "string \<Rightarrow> string \<Rightarrow> nat list" where
  "positions sep s = filter (\<lambda>i. prefix sep (drop i s)) [0..<Suc (length s)]"

text \<open>
  What it means that a string is the lowercase hexadecimal rendering of a number: it
  is made of the digits \<open>0\<close> to \<open>9\<close> and \<open>a\<close> to \<open>f\<close>, and read in base 16 it is that
  number. The value of a digit is its place among the sixteen digits.
\<close>

definition hexDigits :: string where
  "hexDigits = ''0123456789abcdef''"

definition digitValue :: "char \<Rightarrow> nat" where
  "digitValue c = length (takeWhile (\<lambda>x. x \<noteq> c) hexDigits)"

definition hexValue :: "string \<Rightarrow> nat" where
  "hexValue s = foldl (\<lambda>acc c. 16 * acc + digitValue c) 0 s"

definition lowerHex :: "string \<Rightarrow> bool" where
  "lowerHex s \<longleftrightarrow> s \<noteq> [] \<and> list_all (\<lambda>c. c \<in> set hexDigits) s"

text \<open>
  The words of the quality rule, read off the slug, which is the name of the suite
  in the standard: \<open>TLS_<key exchange and authentication>_WITH_<cipher and hash>\<close>.
  \<open>Contains\<close> is \<open>strings.Contains\<close>, that is \<open>Index(s, substr) >= 0\<close>.
\<close>

definition Contains :: "string \<Rightarrow> string \<Rightarrow> bool" where
  "Contains s substr \<longleftrightarrow> Index s substr \<noteq> None"

definition usesRC4 :: "string \<Rightarrow> bool" where
  "usesRC4 slug \<longleftrightarrow> Contains slug ''_RC4_''"

definition uses3DES :: "string \<Rightarrow> bool" where
  "uses3DES slug \<longleftrightarrow> Contains slug ''_3DES_''"

definition cbcMode :: "string \<Rightarrow> bool" where
  "cbcMode slug \<longleftrightarrow> Contains slug ''_CBC_''"

definition gcmMode :: "string \<Rightarrow> bool" where
  "gcmMode slug \<longleftrightarrow> Contains slug ''_GCM_''"

definition chacha20Poly1305 :: "string \<Rightarrow> bool" where
  "chacha20Poly1305 slug \<longleftrightarrow> Contains slug ''_CHACHA20_POLY1305''"

definition kexRSA :: "string \<Rightarrow> bool" where
  "kexRSA slug \<longleftrightarrow> prefix ''TLS_RSA_WITH_'' slug"

definition kexECDHE :: "string \<Rightarrow> bool" where
  "kexECDHE slug \<longleftrightarrow> prefix ''TLS_ECDHE_'' slug"

text \<open>
  An example palette for evaluating the colouring: bold red, yellow and green as
  ANSI escape sequences, closed by the reset sequence.
\<close>

definition ansi :: "string \<Rightarrow> Color" where
  "ansi code = \<lparr>isNoColorSet = False,
                format = CHR 0x1B # ''['' @ code @ ''m'',
                unformat = CHR 0x1B # ''[0m''\<rparr>"

definition boldPalette :: palette where
  "boldPalette = \<lparr>red = ansi ''1;31'', yellow = ansi ''1;33'', green = ansi ''1;32''\<rparr>"

section \<open>Properties\<close>

subsection \<open>Unfolding the constants\<close>

lemmas tls_consts =
  VersionSSL30_def VersionTLS10_def VersionTLS11_def VersionTLS12_def
  TLS_RSA_WITH_RC4_128_SHA_def TLS_RSA_WITH_3DES_EDE_CBC_SHA_def
  TLS_RSA_WITH_AES_128_CBC_SHA_def TLS_RSA_WITH_AES_256_CBC_SHA_def
  TLS_RSA_WITH_AES_128_CBC_SHA256_def TLS_RSA_WITH_AES_128_GCM_SHA256_def
  TLS_RSA_WITH_AES_256_GCM_SHA384_def TLS_ECDHE_ECDSA_WITH_RC4_128_SHA_def
  TLS_ECDHE_ECDSA_WITH_AES_128_CBC_SHA_def TLS_ECDHE_ECDSA_WITH_AES_256_CBC_SHA_def
  TLS_ECDHE_RSA_WITH_RC4_128_SHA_def TLS_ECDHE_RSA_WITH_3DES_EDE_CBC_SHA_def
  TLS_ECDHE_RSA_WITH_AES_128_CBC_SHA_def TLS_ECDHE_RSA_WITH_AES_256_CBC_SHA_def
  TLS_ECDHE_ECDSA_WITH_AES_128_CBC_SHA256_def TLS_ECDHE_RSA_WITH_AES_128_CBC_SHA256_def
  TLS_ECDHE_RSA_WITH_AES_128_GCM_SHA256_def TLS_ECDHE_ECDSA_WITH_AES_128_GCM_SHA256_def
  TLS_ECDHE_RSA_WITH_AES_256_GCM_SHA384_def TLS_ECDHE_ECDSA_WITH_AES_256_GCM_SHA384_def
  TLS_ECDHE_RSA_WITH_CHACHA20_POLY1305_def TLS_ECDHE_ECDSA_WITH_CHACHA20_POLY1305_def

lemmas registry_defs =
  tlsVersions_def tlsVersions_literal_def cipherSuites_def cipherSuites_literal_def
  mk_def insecure_def ok_def good_def

subsection \<open>The registries as maps\<close>

text \<open>
  No key is repeated in either literal, so each pair of a literal is an entry of the
  map and the order of the pairs does not matter.
\<close>

lemma registry_keys_distinct:
  "distinct (map fst tlsVersions_literal)" "distinct (map fst cipherSuites_literal)"
  by (simp_all add: tlsVersions_literal_def cipherSuites_literal_def tls_consts)

lemma registry_entries:
  "tlsVersions k = Some d \<longleftrightarrow> (k, d) \<in> set tlsVersions_literal"
  "cipherSuites k = Some d \<longleftrightarrow> (k, d) \<in> set cipherSuites_literal"
  unfolding tlsVersions_def cipherSuites_def
  by (simp_all only: map_of_eq_Some_iff [OF registry_keys_distinct(1)]
        map_of_eq_Some_iff [OF registry_keys_distinct(2)])

subsection \<open>\<open>Index\<close> finds the first position of the separator\<close>

lemma Index_Some_prefix: "Index s sep = Some m \<Longrightarrow> prefix sep (drop m s)"
proof (induction s arbitrary: m)
  case Nil
  then show ?case by (simp split: if_splits)
next
  case (Cons c cs)
  then show ?case by (auto split: if_splits)
qed

lemma Index_Some_least: "Index s sep = Some m \<Longrightarrow> i < m \<Longrightarrow> \<not> prefix sep (drop i s)"
proof (induction s arbitrary: m i)
  case Nil
  then show ?case by (simp split: if_splits)
next
  case (Cons c cs)
  show ?case
  proof (cases "prefix sep (c # cs)")
    case True
    with Cons.prems show ?thesis by simp
  next
    case False
    with Cons.prems obtain k where k: "Index cs sep = Some k" "m = Suc k" by auto
    show ?thesis
    proof (cases i)
      case 0
      with False show ?thesis by simp
    next
      case (Suc j)
      with k Cons.prems have "j < k" by simp
      with k Cons.IH have "\<not> prefix sep (drop j cs)" by blast
      with Suc show ?thesis by simp
    qed
  qed
qed

lemma Index_None_no_prefix: "Index s sep = None \<Longrightarrow> \<not> prefix sep (drop i s)"
proof (induction s arbitrary: i)
  case Nil
  then show ?case by (simp split: if_splits)
next
  case (Cons c cs)
  then show ?case by (cases i) (auto split: if_splits)
qed

lemma Index_is_Some: "prefix sep (drop i s) \<Longrightarrow> \<exists>m. Index s sep = Some m"
  using Index_None_no_prefix by (cases "Index s sep") auto

lemma Index_eqI:
  assumes "prefix sep (drop m s)" and "m \<le> length s"
    and "\<And>i. i < m \<Longrightarrow> \<not> prefix sep (drop i s)"
  shows "Index s sep = Some m"
proof -
  from assms(1) obtain k where k: "Index s sep = Some k" using Index_is_Some by blast
  have "\<not> m < k" using Index_Some_least [OF k] assms(1) by blast
  moreover have "\<not> k < m" using Index_Some_prefix [OF k] assms(3) by blast
  ultimately show ?thesis using k by simp
qed

lemma Index_NoneI:
  assumes "\<And>i. i \<le> length s \<Longrightarrow> \<not> prefix sep (drop i s)"
  shows "Index s sep = None"
proof (cases "Index s sep")
  case None
  then show ?thesis .
next
  case (Some m)
  then have "prefix sep (drop m s)" and "m + length sep \<le> length s"
    by (simp_all add: Index_Some_prefix Index_bound)
  with assms [of m] show ?thesis by simp
qed

subsection \<open>Splitting at a separator that occurs once\<close>

lemma positions_iff: "i \<in> set (positions sep s) \<longleftrightarrow> i \<le> length s \<and> prefix sep (drop i s)"
  unfolding positions_def set_filter set_upt by auto

lemma single_position:
  assumes "length (positions sep s) = 1" and "i \<le> length s" and "prefix sep (drop i s)"
  shows "positions sep s = [i]"
proof -
  from assms(1) obtain j where j: "positions sep s = [j]"
    by (cases "positions sep s") auto
  from assms(2,3) have "i \<in> set (positions sep s)" by (simp add: positions_iff)
  with j show ?thesis by simp
qed

lemma Split_once:
  assumes s: "s = a @ sep @ b" and sep: "sep \<noteq> []" and one: "length (positions sep s) = 1"
  shows "Split s sep = [a, b]"
proof -
  have at: "prefix sep (drop (length a) s)" using s by simp
  have len: "length a \<le> length s" using s by simp
  have only: "positions sep s = [length a]" using one len at by (rule single_position)
  have uniq: "i = length a" if "i \<le> length s" "prefix sep (drop i s)" for i
    using that only positions_iff [of i sep s] by simp
  have first: "Index s sep = Some (length a)"
  proof (rule Index_eqI [OF at len])
    fix i assume "i < length a"
    with len uniq [of i] show "\<not> prefix sep (drop i s)" by auto
  qed
  have rest: "drop (length a + length sep) s = b" using s by simp
  have none: "Index b sep = None"
  proof (rule Index_NoneI)
    fix i assume i: "i \<le> length b"
    show "\<not> prefix sep (drop i b)"
    proof
      assume "prefix sep (drop i b)"
      then have "prefix sep (drop (length a + length sep + i) s)" using s by simp
      moreover have "length a + length sep + i \<le> length s" using s i by simp
      ultimately have "length a + length sep + i = length a" by (rule uniq [rotated])
      with sep show False by simp
    qed
  qed
  have "Split s sep = take (length a) s # Split b sep"
    using sep first rest by (subst Split.simps) simp
  also have "take (length a) s = a" using s by simp
  also have "Split b sep = [b]" using sep none by (subst Split.simps) simp
  finally show ?thesis .
qed

subsection \<open>The resolver on registered identifiers\<close>

text \<open>
  Claim C4. For every identifier that a registry holds, in particular the version
  registry and the cipher suite registry, \<open>lookup\<close> returns the registered
  description itself: name, slug and quality are those of the entry.
\<close>

theorem lookup_registered:
  "descriptions what = Some v \<Longrightarrow> lookup descriptions what = v"
  by (simp add: lookup_def)

theorem lookup_registered_witness:
  "tlsVersions VersionTLS11 = Some (mk ''TLS 1.1'' ''tls_1_1'' ok)
   \<and> lookup tlsVersions VersionTLS11 = mk ''TLS 1.1'' ''tls_1_1'' ok
   \<and> cipherSuites TLS_RSA_WITH_AES_128_CBC_SHA
       = Some (mk '''' ''TLS_RSA_WITH_AES_128_CBC_SHA'' ok)
   \<and> lookup cipherSuites TLS_RSA_WITH_AES_128_CBC_SHA
       = mk '''' ''TLS_RSA_WITH_AES_128_CBC_SHA'' ok"
proof -
  have h: "tlsVersions VersionTLS11 = Some (mk ''TLS 1.1'' ''tls_1_1'' ok)"
    by (simp add: registry_defs tls_consts)
  have g: "cipherSuites TLS_RSA_WITH_AES_128_CBC_SHA
      = Some (mk '''' ''TLS_RSA_WITH_AES_128_CBC_SHA'' ok)"
    by (simp add: registry_defs tls_consts)
  from h g lookup_registered [of tlsVersions VersionTLS11, OF h]
    lookup_registered [of cipherSuites TLS_RSA_WITH_AES_128_CBC_SHA, OF g]
  show ?thesis by simp
qed

subsection \<open>The verb \<open>%x\<close> writes lowercase hexadecimal\<close>

lemma ldigits_table:
  "\<forall>k \<in> set [0..<16]. ldigits ! k \<in> set hexDigits \<and> digitValue (ldigits ! k) = k"
  by code_simp

lemma ldigits_digit:
  assumes "k < 16"
  shows "ldigits ! k \<in> set hexDigits" and "digitValue (ldigits ! k) = k"
proof -
  from assms have "k \<in> set [0..<16]" by simp
  with ldigits_table show "ldigits ! k \<in> set hexDigits" and "digitValue (ldigits ! k) = k"
    by blast+
qed

lemma fmtHex_nonempty: "fmtHex u \<noteq> []"
  by (subst fmtHex.simps) simp

lemma fmtHex_digits: "set (fmtHex u) \<subseteq> set hexDigits"
proof (induction u rule: fmtHex.induct)
  case (1 u)
  show ?case
  proof (cases "16 \<le> u")
    case True
    have "u mod 16 < 16" by simp
    then have "ldigits ! (u mod 16) \<in> set hexDigits" by (rule ldigits_digit)
    with True 1 show ?thesis by (subst fmtHex.simps) simp
  next
    case False
    then have "ldigits ! u \<in> set hexDigits" by (intro ldigits_digit) simp
    with False show ?thesis by (subst fmtHex.simps) simp
  qed
qed

lemma fmtHex_lowerHex: "lowerHex (fmtHex u)"
  using fmtHex_digits [of u] by (auto simp: lowerHex_def fmtHex_nonempty list_all_iff)

lemma hexValue_snoc: "hexValue (s @ [c]) = 16 * hexValue s + digitValue c"
  by (simp add: hexValue_def)

lemma hexValue_fmtHex: "hexValue (fmtHex u) = u"
proof (induction u rule: fmtHex.induct)
  case (1 u)
  show ?case
  proof (cases "16 \<le> u")
    case True
    have "digitValue (ldigits ! (u mod 16)) = u mod 16" by (intro ldigits_digit) simp
    with True 1 have "hexValue (fmtHex u) = 16 * (u div 16) + u mod 16"
      by (subst fmtHex.simps) (simp add: hexValue_snoc)
    then show ?thesis by simp
  next
    case False
    then have "digitValue (ldigits ! u) = u" by (intro ldigits_digit) simp
    with False show ?thesis by (subst fmtHex.simps) (simp add: hexValue_def)
  qed
qed

subsection \<open>The resolver on identifiers that a registry does not hold\<close>

text \<open>
  Claim C3. For every 16-bit identifier that a registry does not hold, \<open>lookup\<close>
  returns a description whose name and slug are both \<open>UNKNOWN_\<close> followed by the
  lowercase hexadecimal rendering of the identifier, and whose quality is
  \<open>insecure\<close>, the lowest tier.
\<close>

theorem lookup_unknown:
  assumes "descriptions what = None"
  shows "lookup descriptions what
           = mk (''UNKNOWN_'' @ fmtHex (unat what)) (''UNKNOWN_'' @ fmtHex (unat what)) insecure
         \<and> lowerHex (fmtHex (unat what)) \<and> hexValue (fmtHex (unat what)) = unat what
         \<and> insecure < ok \<and> ok < good"
  using assms
  by (simp add: lookup_def Let_def insecure_def ok_def good_def fmtHex_lowerHex hexValue_fmtHex)

theorem lookup_unknown_witness:
  "cipherSuites 0x1301 = None
   \<and> lookup cipherSuites 0x1301 = mk ''UNKNOWN_1301'' ''UNKNOWN_1301'' insecure
   \<and> tlsVersions 0x0304 = None
   \<and> lookup tlsVersions 0x0304 = mk ''UNKNOWN_304'' ''UNKNOWN_304'' insecure"
proof -
  have h1: "cipherSuites 0x1301 = None" by (simp add: registry_defs tls_consts)
  have h2: "tlsVersions 0x0304 = None" by (simp add: registry_defs tls_consts)
  have f1: "fmtHex (unat (0x1301 :: 16 word)) = ''1301''" by code_simp
  have f2: "fmtHex (unat (0x0304 :: 16 word)) = ''304''" by code_simp
  from h1 h2 lookup_unknown [of cipherSuites "0x1301", OF h1]
    lookup_unknown [of tlsVersions "0x0304", OF h2] f1 f2
  show ?thesis by simp
qed

subsection \<open>The name of a cipher suite\<close>

text \<open>
  Claim C9. Whenever \<open>explainCipher\<close> returns a description, it differs from the
  argument at most in the name: slug and quality are those of the argument.
\<close>

theorem explainCipher_frame:
  "explainCipher d = Inr d' \<Longrightarrow> Slug d' = Slug d \<and> Quality d' = Quality d"
  by (auto simp: explainCipher_def Let_def split: if_splits)

theorem explainCipher_frame_witness:
  "explainCipher (mk '''' ''TLS_RSA_WITH_RC4_128_SHA'' insecure)
     = Inr (mk ''RSA key exchange, RC4_128_SHA cipher'' ''TLS_RSA_WITH_RC4_128_SHA'' insecure)
   \<and> Slug (mk ''RSA key exchange, RC4_128_SHA cipher'' ''TLS_RSA_WITH_RC4_128_SHA'' insecure)
       = Slug (mk '''' ''TLS_RSA_WITH_RC4_128_SHA'' insecure)
   \<and> Quality (mk ''RSA key exchange, RC4_128_SHA cipher'' ''TLS_RSA_WITH_RC4_128_SHA'' insecure)
       = Quality (mk '''' ''TLS_RSA_WITH_RC4_128_SHA'' insecure)"
proof -
  have h: "explainCipher (mk '''' ''TLS_RSA_WITH_RC4_128_SHA'' insecure)
     = Inr (mk ''RSA key exchange, RC4_128_SHA cipher'' ''TLS_RSA_WITH_RC4_128_SHA'' insecure)"
    by code_simp
  from h explainCipher_frame [OF h] show ?thesis by simp
qed

text \<open>
  Claim C5. For every description whose slug follows the pattern
  \<open>TLS_<kex>_WITH_<cipher>\<close>, the separator \<open>_WITH_\<close> occurring in it once,
  \<open>explainCipher\<close> splits the slug at the separator into the two parts \<open>TLS_<kex>\<close> and
  \<open><cipher>\<close>, drops \<open>TLS_\<close> from the first, and sets the name to
  \<open><kex> key exchange, <cipher> cipher\<close>, leaving the rest of the description as it is.
  On the slug \<open>TLS_RSA_WITH_AES_128_GCM_SHA256\<close> the name is
  \<open>RSA key exchange, AES_128_GCM_SHA256 cipher\<close>.
\<close>

theorem explainCipher_pattern:
  assumes "Slug d = ''TLS_'' @ kex @ ''_WITH_'' @ cipher"
    and "length (positions ''_WITH_'' (Slug d)) = 1"
  shows "Split (Slug d) ''_WITH_'' = [''TLS_'' @ kex, cipher]
    \<and> explainCipher d = Inr (d\<lparr>Name := kex @ '' key exchange, '' @ cipher @ '' cipher''\<rparr>)"
proof -
  have "Slug d = (''TLS_'' @ kex) @ ''_WITH_'' @ cipher" using assms(1) by simp
  then have "Split (Slug d) ''_WITH_'' = [''TLS_'' @ kex, cipher]"
    using assms(2) by (intro Split_once) simp_all
  then show ?thesis by (simp add: explainCipher_def)
qed

theorem explainCipher_pattern_witness:
  "Slug (mk '''' ''TLS_RSA_WITH_AES_128_GCM_SHA256'' ok)
     = ''TLS_'' @ ''RSA'' @ ''_WITH_'' @ ''AES_128_GCM_SHA256''
   \<and> length (positions ''_WITH_'' (Slug (mk '''' ''TLS_RSA_WITH_AES_128_GCM_SHA256'' ok))) = 1
   \<and> explainCipher (mk '''' ''TLS_RSA_WITH_AES_128_GCM_SHA256'' ok)
       = Inr (mk ''RSA key exchange, AES_128_GCM_SHA256 cipher''
                ''TLS_RSA_WITH_AES_128_GCM_SHA256'' ok)"
proof -
  have h1: "Slug (mk '''' ''TLS_RSA_WITH_AES_128_GCM_SHA256'' ok)
      = ''TLS_'' @ ''RSA'' @ ''_WITH_'' @ ''AES_128_GCM_SHA256''"
    by (simp add: mk_def)
  have h2: "length (positions ''_WITH_'' (Slug (mk '''' ''TLS_RSA_WITH_AES_128_GCM_SHA256'' ok))) = 1"
    by code_simp
  from h1 h2 explainCipher_pattern [OF h1 h2] show ?thesis by (simp add: mk_def)
qed

subsection \<open>The text encoder on a cipher suite that the registry does not hold\<close>

lemma Index_absent_head: "c \<notin> set s \<Longrightarrow> Index s (c # sep) = None"
  by (induction s) auto

lemma not_hexDigits: "CHR ''_'' \<notin> set hexDigits" "CHR ''W'' \<notin> set hexDigits"
  by (simp_all add: hexDigits_def)

lemma Index_unknown: "Index (''UNKNOWN_'' @ fmtHex u) ''_WITH_'' = None"
proof -
  have "CHR ''_'' \<notin> set (fmtHex u)" and W: "CHR ''W'' \<notin> set (fmtHex u)"
    using fmtHex_digits [of u] not_hexDigits by blast+
  then have "Index (fmtHex u) ''_WITH_'' = None" by (simp add: Index_absent_head)
  moreover have "\<not> prefix ''WITH_'' (fmtHex u)"
  proof
    assume "prefix ''WITH_'' (fmtHex u)"
    then have "set ''WITH_'' \<subseteq> set (fmtHex u)" by (rule set_mono_prefix)
    with W show False by simp
  qed
  ultimately show ?thesis by simp
qed

lemma explainCipher_unknown:
  "explainCipher (mk (''UNKNOWN_'' @ fmtHex u) (''UNKNOWN_'' @ fmtHex u) q) = Inl IndexOutOfRange"
proof -
  have "Split (''UNKNOWN_'' @ fmtHex u) ''_WITH_'' = [''UNKNOWN_'' @ fmtHex u]"
    using Index_unknown [of u] by (subst Split.simps) simp
  then show ?thesis by (simp add: explainCipher_def mk_def)
qed

text \<open>
  The placeholder that \<open>lookup\<close> makes for an unregistered cipher suite has no
  \<open>_WITH_\<close> in its slug, so the split has one part and \<open>kexAndCipher[1]\<close> is out of
  range: the text encoder panics on every cipher suite that the registry does not
  hold, whatever the version is.
\<close>

lemma EncodeTLSToText_unregistered_cipher:
  assumes "cipherSuites (tcs_CipherSuite tcs) = None"
  shows "EncodeTLSToText p tcs = Inl IndexOutOfRange"
proof -
  define u where "u = unat (tcs_CipherSuite tcs)"
  have "lookup cipherSuites (tcs_CipherSuite tcs)
          = mk (''UNKNOWN_'' @ fmtHex u) (''UNKNOWN_'' @ fmtHex u) 0"
    using assms unfolding lookup_def Let_def u_def by simp
  then have "explainCipher (lookup cipherSuites (tcs_CipherSuite tcs)) = Inl IndexOutOfRange"
    by (simp only: explainCipher_unknown)
  then show ?thesis by (simp add: EncodeTLSToText_def Let_def)
qed

text \<open>
  Claim C1 says that the text encoder returns a string for every pair of
  identifiers. At TLS 1.2 with the cipher suite \<open>0x1301\<close>, which the registry does
  not hold, the source panics with an index out of range.
\<close>

theorem EncodeTLSToText_unknown_cipher_panics:
  "EncodeTLSToText p \<lparr>tcs_Version = VersionTLS12, tcs_CipherSuite = 0x1301\<rparr>
     = Inl IndexOutOfRange"
  by (rule EncodeTLSToText_unregistered_cipher) (simp add: registry_defs tls_consts)

subsection \<open>The qualities of the cipher suite registry\<close>

lemma registry_entry: "map_of l k = Some d \<Longrightarrow> list_all (\<lambda>(k, d). P d) l \<Longrightarrow> P d"
  by (auto simp: list_all_iff dest: map_of_SomeD)

lemma cipherSuites_quality_table:
  "list_all (\<lambda>(k, d).
      (usesRC4 (Slug d) \<or> uses3DES (Slug d) \<longrightarrow> Quality d = insecure)
    \<and> (cbcMode (Slug d) \<and> \<not> uses3DES (Slug d) \<and> (kexRSA (Slug d) \<or> kexECDHE (Slug d))
         \<longrightarrow> Quality d = ok)
    \<and> (gcmMode (Slug d) \<and> kexRSA (Slug d) \<longrightarrow> Quality d = ok)
    \<and> ((gcmMode (Slug d) \<or> chacha20Poly1305 (Slug d)) \<and> kexECDHE (Slug d)
         \<longrightarrow> Quality d = good)) cipherSuites_literal"
  by code_simp

text \<open>
  Every entry of the registry falls under one of the four cases of the rule.
\<close>

lemma cipherSuites_quality_cover:
  "list_all (\<lambda>(k, d).
      (usesRC4 (Slug d) \<or> uses3DES (Slug d))
    \<or> (cbcMode (Slug d) \<and> \<not> uses3DES (Slug d) \<and> (kexRSA (Slug d) \<or> kexECDHE (Slug d)))
    \<or> (gcmMode (Slug d) \<and> kexRSA (Slug d))
    \<or> ((gcmMode (Slug d) \<or> chacha20Poly1305 (Slug d)) \<and> kexECDHE (Slug d)))
    cipherSuites_literal"
  by code_simp

text \<open>
  Claim C2, as amended. In the cipher suite registry every suite that uses RC4 or
  3DES has quality \<open>insecure\<close>; every CBC-mode suite that does not use 3DES, with RSA
  or ECDHE key exchange, has quality \<open>ok\<close> (acceptable); every GCM suite with RSA key
  exchange has quality \<open>ok\<close>; every GCM or ChaCha20-Poly1305 suite with ECDHE key
  exchange has quality \<open>good\<close>.
\<close>

theorem cipherSuites_quality:
  assumes "cipherSuites k = Some d"
  shows "(usesRC4 (Slug d) \<or> uses3DES (Slug d) \<longrightarrow> Quality d = insecure)
    \<and> (cbcMode (Slug d) \<and> \<not> uses3DES (Slug d) \<and> (kexRSA (Slug d) \<or> kexECDHE (Slug d))
         \<longrightarrow> Quality d = ok)
    \<and> (gcmMode (Slug d) \<and> kexRSA (Slug d) \<longrightarrow> Quality d = ok)
    \<and> ((gcmMode (Slug d) \<or> chacha20Poly1305 (Slug d)) \<and> kexECDHE (Slug d)
         \<longrightarrow> Quality d = good)"
  using assms cipherSuites_quality_table unfolding cipherSuites_def by (rule registry_entry)

theorem cipherSuites_quality_witness:
  "cipherSuites TLS_ECDHE_RSA_WITH_RC4_128_SHA
     = Some (mk '''' ''TLS_ECDHE_RSA_WITH_RC4_128_SHA'' insecure)
   \<and> usesRC4 ''TLS_ECDHE_RSA_WITH_RC4_128_SHA''
   \<and> cipherSuites TLS_RSA_WITH_AES_256_CBC_SHA
     = Some (mk '''' ''TLS_RSA_WITH_AES_256_CBC_SHA'' ok)
   \<and> cbcMode ''TLS_RSA_WITH_AES_256_CBC_SHA'' \<and> \<not> uses3DES ''TLS_RSA_WITH_AES_256_CBC_SHA''
   \<and> kexRSA ''TLS_RSA_WITH_AES_256_CBC_SHA''
   \<and> cipherSuites TLS_RSA_WITH_AES_256_GCM_SHA384
     = Some (mk '''' ''TLS_RSA_WITH_AES_256_GCM_SHA384'' ok)
   \<and> gcmMode ''TLS_RSA_WITH_AES_256_GCM_SHA384'' \<and> kexRSA ''TLS_RSA_WITH_AES_256_GCM_SHA384''
   \<and> cipherSuites TLS_ECDHE_ECDSA_WITH_CHACHA20_POLY1305
     = Some (mk '''' ''TLS_ECDHE_ECDSA_WITH_CHACHA20_POLY1305'' good)
   \<and> chacha20Poly1305 ''TLS_ECDHE_ECDSA_WITH_CHACHA20_POLY1305''
   \<and> kexECDHE ''TLS_ECDHE_ECDSA_WITH_CHACHA20_POLY1305''
   \<and> Quality (mk '''' ''TLS_ECDHE_RSA_WITH_RC4_128_SHA'' insecure) = insecure
   \<and> Quality (mk '''' ''TLS_RSA_WITH_AES_256_CBC_SHA'' ok) = ok
   \<and> Quality (mk '''' ''TLS_RSA_WITH_AES_256_GCM_SHA384'' ok) = ok
   \<and> Quality (mk '''' ''TLS_ECDHE_ECDSA_WITH_CHACHA20_POLY1305'' good) = good"
proof -
  have k1: "cipherSuites TLS_ECDHE_RSA_WITH_RC4_128_SHA
      = Some (mk '''' ''TLS_ECDHE_RSA_WITH_RC4_128_SHA'' insecure)"
    by (simp add: cipherSuites_def cipherSuites_literal_def tls_consts)
  have k2: "cipherSuites TLS_RSA_WITH_AES_256_CBC_SHA
      = Some (mk '''' ''TLS_RSA_WITH_AES_256_CBC_SHA'' ok)"
    by (simp add: cipherSuites_def cipherSuites_literal_def tls_consts)
  have k3: "cipherSuites TLS_RSA_WITH_AES_256_GCM_SHA384
      = Some (mk '''' ''TLS_RSA_WITH_AES_256_GCM_SHA384'' ok)"
    by (simp add: cipherSuites_def cipherSuites_literal_def tls_consts)
  have k4: "cipherSuites TLS_ECDHE_ECDSA_WITH_CHACHA20_POLY1305
      = Some (mk '''' ''TLS_ECDHE_ECDSA_WITH_CHACHA20_POLY1305'' good)"
    by (simp add: cipherSuites_def cipherSuites_literal_def tls_consts)
  have a1: "usesRC4 ''TLS_ECDHE_RSA_WITH_RC4_128_SHA''" by code_simp
  have a2: "cbcMode ''TLS_RSA_WITH_AES_256_CBC_SHA'' \<and> \<not> uses3DES ''TLS_RSA_WITH_AES_256_CBC_SHA''
      \<and> kexRSA ''TLS_RSA_WITH_AES_256_CBC_SHA''" by code_simp
  have a3: "gcmMode ''TLS_RSA_WITH_AES_256_GCM_SHA384'' \<and> kexRSA ''TLS_RSA_WITH_AES_256_GCM_SHA384''"
    by code_simp
  have a4: "chacha20Poly1305 ''TLS_ECDHE_ECDSA_WITH_CHACHA20_POLY1305''
      \<and> kexECDHE ''TLS_ECDHE_ECDSA_WITH_CHACHA20_POLY1305''" by code_simp
  from cipherSuites_quality [OF k1] cipherSuites_quality [OF k2]
    cipherSuites_quality [OF k3] cipherSuites_quality [OF k4] k1 k2 k3 k4 a1 a2 a3 a4
  show ?thesis by (simp add: mk_def)
qed

text \<open>
  Claim C2 as it is written does not hold. The registry gives the two GCM suites
  with RSA key exchange the quality \<open>ok\<close>, not \<open>good\<close>, and the two 3DES suites, which
  are CBC-mode suites with RSA or ECDHE key exchange, the quality \<open>insecure\<close>, not
  \<open>ok\<close>.
\<close>

theorem cipherSuites_quality_counterexample:
  "cipherSuites TLS_RSA_WITH_AES_128_GCM_SHA256
     = Some (mk '''' ''TLS_RSA_WITH_AES_128_GCM_SHA256'' ok)
   \<and> gcmMode ''TLS_RSA_WITH_AES_128_GCM_SHA256''
   \<and> Quality (mk '''' ''TLS_RSA_WITH_AES_128_GCM_SHA256'' ok) \<noteq> good
   \<and> cipherSuites TLS_RSA_WITH_3DES_EDE_CBC_SHA
     = Some (mk '''' ''TLS_RSA_WITH_3DES_EDE_CBC_SHA'' insecure)
   \<and> cbcMode ''TLS_RSA_WITH_3DES_EDE_CBC_SHA'' \<and> kexRSA ''TLS_RSA_WITH_3DES_EDE_CBC_SHA''
   \<and> Quality (mk '''' ''TLS_RSA_WITH_3DES_EDE_CBC_SHA'' insecure) \<noteq> ok"
proof -
  have "cipherSuites TLS_RSA_WITH_AES_128_GCM_SHA256
      = Some (mk '''' ''TLS_RSA_WITH_AES_128_GCM_SHA256'' ok)"
    and "cipherSuites TLS_RSA_WITH_3DES_EDE_CBC_SHA
      = Some (mk '''' ''TLS_RSA_WITH_3DES_EDE_CBC_SHA'' insecure)"
    by (simp_all add: cipherSuites_def cipherSuites_literal_def tls_consts)
  moreover have "gcmMode ''TLS_RSA_WITH_AES_128_GCM_SHA256''"
    and "cbcMode ''TLS_RSA_WITH_3DES_EDE_CBC_SHA'' \<and> kexRSA ''TLS_RSA_WITH_3DES_EDE_CBC_SHA''"
    by code_simp+
  moreover have "Quality (mk '''' ''TLS_RSA_WITH_AES_128_GCM_SHA256'' ok) \<noteq> good"
    and "Quality (mk '''' ''TLS_RSA_WITH_3DES_EDE_CBC_SHA'' insecure) \<noteq> ok"
    by (simp_all add: mk_def insecure_def ok_def good_def)
  ultimately show ?thesis by blast
qed

subsection \<open>Every registered cipher suite can be explained\<close>

lemma cipherSuites_wellformed_table:
  "list_all (\<lambda>(k, d).
      Name d = [] \<and> prefix ''TLS_'' (Slug d) \<and> length (positions ''_WITH_'' (Slug d)) = 1
    \<and> (case explainCipher d of Inl e \<Rightarrow> False | Inr d' \<Rightarrow> Name d' \<noteq> []))
    cipherSuites_literal"
  by code_simp

text \<open>
  Claim C10. Every entry of the cipher suite registry has an empty name and a slug
  that begins with \<open>TLS_\<close> and in which \<open>_WITH_\<close> occurs once; on every description of
  the registry \<open>explainCipher\<close> does not panic and returns a description whose name
  is not empty.
\<close>

theorem cipherSuites_wellformed:
  assumes "cipherSuites k = Some d"
  shows "Name d = [] \<and> prefix ''TLS_'' (Slug d) \<and> length (positions ''_WITH_'' (Slug d)) = 1
    \<and> (\<exists>d'. explainCipher d = Inr d' \<and> Name d' \<noteq> [])"
proof -
  have "Name d = [] \<and> prefix ''TLS_'' (Slug d) \<and> length (positions ''_WITH_'' (Slug d)) = 1
    \<and> (case explainCipher d of Inl e \<Rightarrow> False | Inr d' \<Rightarrow> Name d' \<noteq> [])"
    using assms cipherSuites_wellformed_table unfolding cipherSuites_def
    by (rule registry_entry)
  then show ?thesis by (cases "explainCipher d") simp_all
qed

theorem cipherSuites_wellformed_witness:
  "cipherSuites TLS_ECDHE_ECDSA_WITH_AES_128_CBC_SHA256
     = Some (mk '''' ''TLS_ECDHE_ECDSA_WITH_AES_128_CBC_SHA256'' ok)
   \<and> explainCipher (mk '''' ''TLS_ECDHE_ECDSA_WITH_AES_128_CBC_SHA256'' ok)
     = Inr (mk ''ECDHE_ECDSA key exchange, AES_128_CBC_SHA256 cipher''
              ''TLS_ECDHE_ECDSA_WITH_AES_128_CBC_SHA256'' ok)
   \<and> prefix ''TLS_'' ''TLS_ECDHE_ECDSA_WITH_AES_128_CBC_SHA256''
   \<and> length (positions ''_WITH_'' ''TLS_ECDHE_ECDSA_WITH_AES_128_CBC_SHA256'') = 1"
proof -
  have h: "cipherSuites TLS_ECDHE_ECDSA_WITH_AES_128_CBC_SHA256
      = Some (mk '''' ''TLS_ECDHE_ECDSA_WITH_AES_128_CBC_SHA256'' ok)"
    by (simp add: cipherSuites_def cipherSuites_literal_def tls_consts)
  have e: "explainCipher (mk '''' ''TLS_ECDHE_ECDSA_WITH_AES_128_CBC_SHA256'' ok)
     = Inr (mk ''ECDHE_ECDSA key exchange, AES_128_CBC_SHA256 cipher''
              ''TLS_ECDHE_ECDSA_WITH_AES_128_CBC_SHA256'' ok)"
    by code_simp
  from h e cipherSuites_wellformed [OF h] show ?thesis by (simp add: mk_def)
qed

subsection \<open>The object encoder\<close>

text \<open>
  Claim C6. For every pair of identifiers \<open>EncodeTLSToObject\<close> returns the record of
  the two slugs of the resolved version and cipher suite descriptions, and nothing
  of their names or qualities; for TLS 1.2 and
  \<open>TLS_ECDHE_RSA_WITH_AES_128_GCM_SHA256\<close> it returns the version \<open>tls_1_2\<close> and the
  cipher \<open>TLS_ECDHE_RSA_WITH_AES_128_GCM_SHA256\<close>.
\<close>

theorem EncodeTLSToObject_slugs:
  "EncodeTLSToObject t
     = \<lparr>Version = Slug (lookup tlsVersions (tcs_Version t)),
        Cipher = Slug (lookup cipherSuites (tcs_CipherSuite t))\<rparr>
   \<and> EncodeTLSToObject \<lparr>tcs_Version = VersionTLS12,
                        tcs_CipherSuite = TLS_ECDHE_RSA_WITH_AES_128_GCM_SHA256\<rparr>
     = \<lparr>Version = ''tls_1_2'', Cipher = ''TLS_ECDHE_RSA_WITH_AES_128_GCM_SHA256''\<rparr>"
  by (simp add: EncodeTLSToObject_def lookup_def registry_defs tls_consts)

subsection \<open>Colouring by quality\<close>

lemma qualityColors_tiers:
  "qualityColors p insecure = Some (red p)"
  "qualityColors p ok = Some (yellow p)"
  "qualityColors p good = Some (green p)"
  "q \<noteq> insecure \<Longrightarrow> q \<noteq> ok \<Longrightarrow> q \<noteq> good \<Longrightarrow> qualityColors p q = None"
  by (simp_all add: qualityColors_def insecure_def ok_def good_def)

text \<open>
  Claim C8. For a description whose quality is one of the three tiers, \<open>tlscolor\<close>
  wraps the name in the colour that the table \<open>qualityColors\<close> gives the tier: red
  for \<open>insecure\<close>, yellow for \<open>ok\<close>, green for \<open>good\<close>. For a description whose quality
  is not in the table it returns the name as it is.
\<close>

theorem tlscolor_tiers:
  "(Quality d = insecure \<longrightarrow> tlscolor p d = wrap (red p) (Name d))
   \<and> (Quality d = ok \<longrightarrow> tlscolor p d = wrap (yellow p) (Name d))
   \<and> (Quality d = good \<longrightarrow> tlscolor p d = wrap (green p) (Name d))
   \<and> (Quality d \<notin> {insecure, ok, good} \<longrightarrow> tlscolor p d = Name d)"
  by (simp add: tlscolor_def qualityColors_tiers SprintFunc_def)

theorem tlscolor_tiers_witness:
  "Quality (mk ''SSL 3.0'' ''ssl_3_0'' insecure) = insecure
   \<and> tlscolor boldPalette (mk ''SSL 3.0'' ''ssl_3_0'' insecure)
       = CHR 0x1B # ''[1;31mSSL 3.0'' @ CHR 0x1B # ''[0m''
   \<and> Quality (mk ''TLS 1.1'' ''tls_1_1'' ok) = ok
   \<and> tlscolor boldPalette (mk ''TLS 1.1'' ''tls_1_1'' ok)
       = CHR 0x1B # ''[1;33mTLS 1.1'' @ CHR 0x1B # ''[0m''
   \<and> Quality (mk ''TLS 1.2'' ''tls_1_2'' good) = good
   \<and> tlscolor boldPalette (mk ''TLS 1.2'' ''tls_1_2'' good)
       = CHR 0x1B # ''[1;32mTLS 1.2'' @ CHR 0x1B # ''[0m''
   \<and> Quality (mk ''TLS 9.9'' ''tls_9_9'' 3) \<notin> {insecure, ok, good}
   \<and> tlscolor boldPalette (mk ''TLS 9.9'' ''tls_9_9'' 3) = ''TLS 9.9''"
  using tlscolor_tiers [of "mk ''SSL 3.0'' ''ssl_3_0'' insecure" boldPalette]
    tlscolor_tiers [of "mk ''TLS 1.1'' ''tls_1_1'' ok" boldPalette]
    tlscolor_tiers [of "mk ''TLS 1.2'' ''tls_1_2'' good" boldPalette]
    tlscolor_tiers [of "mk ''TLS 9.9'' ''tls_9_9'' 3" boldPalette]
  by (simp add: mk_def insecure_def ok_def good_def wrap_def boldPalette_def ansi_def)

subsection \<open>The text encoder\<close>

lemma Parse_tlsLayout:
  "Parse tlsLayout =
    Some [TextNode ''** TLS Connection **\<newline>Version: '', FieldNode ''Version'',
          TextNode ''\<newline>Cipher Suite: '', FieldNode ''Cipher'']"
  by code_simp

lemma EncodeTLSToText_render:
  assumes "explainCipher (lookup cipherSuites (tcs_CipherSuite tcs)) = Inr explained"
  shows "EncodeTLSToText p tcs =
    Inr (''** TLS Connection **\<newline>Version: ''
         @ tlscolor p (lookup tlsVersions (tcs_Version tcs))
         @ ''\<newline>Cipher Suite: '' @ tlscolor p explained)"
  using assms by (simp add: EncodeTLSToText_def Let_def Parse_tlsLayout field_def)

text \<open>
  The text encoder returns a string exactly for the cipher suites of the registry,
  whatever the version is.
\<close>

lemma EncodeTLSToText_registered_cipher:
  assumes "cipherSuites (tcs_CipherSuite tcs) = Some d"
  shows "\<exists>buffer. EncodeTLSToText p tcs = Inr buffer"
proof -
  from assms obtain d' where "explainCipher d = Inr d'"
    using cipherSuites_wellformed_table unfolding cipherSuites_def
    by (cases "explainCipher d") (auto dest!: registry_entry)
  with assms have "explainCipher (lookup cipherSuites (tcs_CipherSuite tcs)) = Inr d'"
    by (simp add: lookup_def)
  then show ?thesis by (simp add: EncodeTLSToText_render)
qed

text \<open>
  Claim C7. For TLS 1.2 and \<open>TLS_ECDHE_RSA_WITH_AES_128_GCM_SHA256\<close> the text
  encoder returns the template filled in: the line \<open>** TLS Connection **\<close>, the line
  \<open>Version: \<close> with the coloured name \<open>TLS 1.2\<close>, and the line \<open>Cipher Suite: \<close> with
  the coloured name \<open>ECDHE_RSA key exchange, AES_128_GCM_SHA256 cipher\<close>. Both names
  are \<open>good\<close> and coloured green; the colouring puts the same two strings, empty ones
  when colours are off, around each name, so the string contains \<open>Version:\<close>,
  \<open>TLS 1.2\<close>, \<open>Cipher Suite:\<close> and the cipher name in this order.
\<close>

theorem EncodeTLSToText_tls12_example:
  "EncodeTLSToText p \<lparr>tcs_Version = VersionTLS12,
                       tcs_CipherSuite = TLS_ECDHE_RSA_WITH_AES_128_GCM_SHA256\<rparr>
     = Inr (''** TLS Connection **\<newline>Version: '' @ SprintFunc (green p) ''TLS 1.2''
            @ ''\<newline>Cipher Suite: ''
            @ SprintFunc (green p) ''ECDHE_RSA key exchange, AES_128_GCM_SHA256 cipher'')
   \<and> (\<exists>pre post.
        EncodeTLSToText p \<lparr>tcs_Version = VersionTLS12,
                            tcs_CipherSuite = TLS_ECDHE_RSA_WITH_AES_128_GCM_SHA256\<rparr>
          = Inr (''** TLS Connection **\<newline>Version: '' @ pre @ ''TLS 1.2'' @ post
                 @ ''\<newline>Cipher Suite: ''
                 @ pre @ ''ECDHE_RSA key exchange, AES_128_GCM_SHA256 cipher'' @ post))"
proof -
  let ?tcs = "\<lparr>tcs_Version = VersionTLS12,
               tcs_CipherSuite = TLS_ECDHE_RSA_WITH_AES_128_GCM_SHA256\<rparr>"
  let ?name = "''ECDHE_RSA key exchange, AES_128_GCM_SHA256 cipher''"
  have v: "lookup tlsVersions (tcs_Version ?tcs) = mk ''TLS 1.2'' ''tls_1_2'' good"
    by (simp add: lookup_def tlsVersions_def tlsVersions_literal_def tls_consts)
  have c: "lookup cipherSuites (tcs_CipherSuite ?tcs)
      = mk '''' ''TLS_ECDHE_RSA_WITH_AES_128_GCM_SHA256'' good"
    by (simp add: lookup_def cipherSuites_def cipherSuites_literal_def tls_consts)
  have e: "explainCipher (mk '''' ''TLS_ECDHE_RSA_WITH_AES_128_GCM_SHA256'' good)
      = Inr (mk ?name ''TLS_ECDHE_RSA_WITH_AES_128_GCM_SHA256'' good)"
    by code_simp
  have t1: "tlscolor p (mk ''TLS 1.2'' ''tls_1_2'' good) = SprintFunc (green p) ''TLS 1.2''"
    and t2: "tlscolor p (mk ?name ''TLS_ECDHE_RSA_WITH_AES_128_GCM_SHA256'' good)
      = SprintFunc (green p) ?name"
    by (simp_all add: tlscolor_def qualityColors_tiers mk_def)
  have out: "EncodeTLSToText p ?tcs
     = Inr (''** TLS Connection **\<newline>Version: '' @ SprintFunc (green p) ''TLS 1.2''
            @ ''\<newline>Cipher Suite: '' @ SprintFunc (green p) ?name)"
    using e unfolding c [symmetric] by (simp only: EncodeTLSToText_render v t1 t2)
  obtain pre post where w: "\<And>s. SprintFunc (green p) s = pre @ s @ post"
  proof (cases "isNoColorSet (green p)")
    case True
    then have "SprintFunc (green p) s = [] @ s @ []" for s
      by (simp add: SprintFunc_def wrap_def)
    then show ?thesis by (rule that)
  next
    case False
    then have "SprintFunc (green p) s = format (green p) @ s @ unformat (green p)" for s
      by (simp add: SprintFunc_def wrap_def)
    then show ?thesis by (rule that)
  qed
  have "EncodeTLSToText p ?tcs
     = Inr (''** TLS Connection **\<newline>Version: '' @ pre @ ''TLS 1.2'' @ post
            @ ''\<newline>Cipher Suite: '' @ pre @ ?name @ post)"
    unfolding out w by simp
  with out show ?thesis by blast
qed

end
